theory Spec2Isabelle
  imports Main "HOL-Library.Word" "HOL-Library.Sublist"
begin

unbundle bit_operations_syntax

section \<open>Strings, bytes and the console\<close>

text \<open>
  A JavaScript string is a sequence of UTF-16 code units; a \<open>Uint8Array\<close> is a sequence
  of bytes. \<open>js\<close> writes an ASCII literal of the source as a JavaScript string.
\<close>

type_synonym jsstring = "16 word list"
type_synonym bytes = "8 word list"

definition js :: "string \<Rightarrow> jsstring" where
  "js s = map (\<lambda>c. of_nat (of_char c)) s"

text \<open>
  Modelled from the spec: \<open>TextEncoder\<close> belongs to the platform, not to the sources; the
  comparison of the spec is on the UTF-8 bytes of the strings. \<open>new TextEncoder().encode(s)\<close>
  reads the string as Unicode scalar values (a high surrogate followed by a low one is one
  code point, any other surrogate is replaced by U+FFFD) and writes each in UTF-8.
  \<open>utf8_cp\<close> is the UTF-8 form of one code point.
\<close>

definition utf8_cp :: "nat \<Rightarrow> bytes" where
  "utf8_cp c =
     (if c < 0x80 then [of_nat c]
      else if c < 0x800 then [of_nat (0xC0 + c div 64), of_nat (0x80 + c mod 64)]
      else if c < 0x10000 then
        [of_nat (0xE0 + c div 4096), of_nat (0x80 + (c div 64) mod 64), of_nat (0x80 + c mod 64)]
      else
        [of_nat (0xF0 + c div 262144), of_nat (0x80 + (c div 4096) mod 64),
         of_nat (0x80 + (c div 64) mod 64), of_nat (0x80 + c mod 64)])"

definition is_high :: "16 word \<Rightarrow> bool" where
  "is_high u = (0xD800 \<le> unat u \<and> unat u \<le> 0xDBFF)"

definition is_low :: "16 word \<Rightarrow> bool" where
  "is_low u = (0xDC00 \<le> unat u \<and> unat u \<le> 0xDFFF)"

fun encode :: "jsstring \<Rightarrow> bytes" where
  "encode [] = []"
| "encode [u] = (if is_high u \<or> is_low u then utf8_cp 0xFFFD else utf8_cp (unat u))"
| "encode (u # v # rest) =
     (if is_high u then
        (if is_low v
         then utf8_cp (0x10000 + (unat u - 0xD800) * 0x400 + (unat v - 0xDC00)) @ encode rest
         else utf8_cp 0xFFFD @ encode (v # rest))
      else if is_low u then utf8_cp 0xFFFD @ encode (v # rest)
      else utf8_cp (unat u) @ encode (v # rest))"

text \<open>
  Modelled from the spec: the \<open>hex(mac)\<close> of the expected value, which the imported MAC
  library computes (its \<open>'hex'\<close> output encoding): lowercase hexadecimal, two digits to the
  byte.
\<close>

definition hexchars :: jsstring where
  "hexchars = js ''0123456789abcdef''"

definition hex_byte :: "8 word \<Rightarrow> jsstring" where
  "hex_byte b = [hexchars ! (unat b div 16), hexchars ! (unat b mod 16)]"

definition hex :: "bytes \<Rightarrow> jsstring" where
  "hex bs = concat (map hex_byte bs)"

text \<open>
  The keyed hash is the imported library's: \<open>hmac(sigHashAlg, secret, body, 'utf8', 'hex')\<close>
  in \<open>mod.ts\<close>, \<open>hmacSha256(body, Buffer.from(secret, 'utf8'))\<close> in the later revision. Both
  read key and message as UTF-8 and return the MAC in lowercase hex. The MAC function on
  bytes (key first, then message) is a parameter \<open>mac\<close> of the model.
\<close>

type_synonym mac_fn = "bytes \<Rightarrow> bytes \<Rightarrow> bytes"

definition hmac :: "mac_fn \<Rightarrow> jsstring \<Rightarrow> jsstring \<Rightarrow> jsstring" where
  "hmac mac secret body = hex (mac (encode secret) (encode body))"

text \<open>
  Modelled from the spec: \<open>timingSafeEqual\<close> is imported from the standard library and is
  not part of the sources. It compares two byte sequences in time independent of where
  they differ: unequal lengths give false; otherwise the XOR of every pair of bytes is
  OR-ed into an accumulator, and the result is whether the accumulator is still zero.
\<close>

fun xor_acc :: "32 word \<Rightarrow> bytes \<Rightarrow> bytes \<Rightarrow> 32 word" where
  "xor_acc out (x # xs) (y # ys) = xor_acc (out OR (ucast x XOR ucast y)) xs ys"
| "xor_acc out _ _ = out"

definition timingSafeEqual :: "bytes \<Rightarrow> bytes \<Rightarrow> bool" where
  "timingSafeEqual a b = (if length a \<noteq> length b then False else xor_acc 0 a b = 0)"

text \<open>Console output: \<open>console.log(...)\<close> and \<open>console.warn(...)\<close> with their arguments.\<close>

datatype console = Log "jsstring list" | Warn "jsstring list"

section \<open>validateSignature\<close>

definition validateSignature ::
  "mac_fn \<Rightarrow> jsstring \<Rightarrow> jsstring \<Rightarrow> jsstring \<Rightarrow> jsstring \<Rightarrow> bool \<times> console list" where
  "validateSignature mac signature body secret event =
     (let sigHashAlg = js ''sha256'';
          sig = encode signature;
          digest = encode (sigHashAlg @ js ''='' @ hmac mac secret body)
      in if length sig \<noteq> length digest \<or> \<not> timingSafeEqual digest sig
         then (False, [Log [js ''%c['' @ event @ js ''] crypto: fail'', js ''color: red'']])
         else (True, [Log [js ''%c['' @ event @ js ''] crypto: ok'', js ''color: green'']]))"

section \<open>parseHeaders\<close>

text \<open>
  A value of type \<open>string | null\<close> or \<open>string | undefined\<close> is an option; in a condition
  it counts as true when it is a non-empty string.
\<close>

definition truthy :: "jsstring option \<Rightarrow> bool" where
  "truthy v = (case v of None \<Rightarrow> False | Some s \<Rightarrow> s \<noteq> [])"

text \<open>\<open>Headers\<close> is read through \<open>headers.get(name)\<close> only; it is modelled as that lookup.\<close>

type_synonym Headers = "jsstring \<Rightarrow> jsstring option"

definition parseHeaders :: "Headers \<Rightarrow> (jsstring option \<times> jsstring option) \<times> console list" where
  \<open>parseHeaders headers =
     (let event = headers (js ''x-github-event'');
          signature = headers (js ''x-hub-signature-256'')
      in ((event, signature),
          (if \<not> truthy event then [Warn [js ''Header "x-github-event" not found'']] else []) @
          (if \<not> truthy signature then [Warn [js ''Header "x-hub-signature-256" not found'']]
           else [])))\<close>

section \<open>handle\<close>

text \<open>
  An awaited promise resolves with a value, rejects, or never settles.
\<close>

datatype 'a promise = Resolved 'a | Rejected | Pending

text \<open>
  A request carries its method, the pathname of its URL (\<open>new URL(request.url).pathname\<close>),
  its headers and the way \<open>await request.text()\<close> ends: resolved with the body text,
  rejected (the body cannot be read) or never settled. A response carries a status and an
  optional body; \<open>new_Response n\<close> is \<open>new Response(undefined, { status: n })\<close>.
\<close>

record Request =
  req_method :: jsstring
  req_pathname :: jsstring
  req_headers :: Headers
  req_text :: "jsstring promise"

record Response =
  status :: nat
  resp_body :: "jsstring option"

definition new_Response :: "nat \<Rightarrow> Response" where
  "new_Response n = \<lparr>status = n, resp_body = None\<rparr>"

text \<open>
  A handler is caller code: called with the payload it may change the world \<open>'w\<close> outside
  the library, and its awaited call either yields a \<open>Response\<close> or nothing, or throws
  (a rejected promise included), or never settles. A \<open>Handler\<close> is the pair of the event
  it is declared for and the function.
\<close>

datatype outcome = Returns "Response option" | Throws | Hangs

type_synonym ('p, 'w) Handler = "jsstring \<times> ('p \<Rightarrow> 'w \<Rightarrow> outcome \<times> 'w)"

text \<open>
  What a run does beside computing its result, in program order: console output, and the
  calls of \<open>validateSignature\<close> (with its arguments and result), of \<open>JSON.parse\<close> (with its
  argument and whether it succeeded) and of the handlers (position in the handler list and
  outcome).
\<close>

datatype effect =
    Console console
  | Call_validateSignature jsstring jsstring jsstring jsstring bool
  | Call_JSON_parse jsstring bool
  | Call_handler nat outcome

text \<open>How a block of statements ends.\<close>

datatype completion = Normal | Return Response | Throw | Hang

text \<open>
  The condition of the first \<open>if\<close> of \<open>handle\<close>, with the short-circuit evaluation of
  \<open>||\<close> and \<open>&&\<close>: \<open>validateSignature\<close> is called only when event, secret and signature
  are all truthy.
\<close>

definition reject_condition ::
  "mac_fn \<Rightarrow> jsstring option \<Rightarrow> jsstring option \<Rightarrow> jsstring \<Rightarrow> jsstring option
     \<Rightarrow> bool \<times> effect list" where
  "reject_condition mac event signature body secret =
     (if \<not> truthy event then (True, [])
      else if \<not> truthy secret then (False, [])
      else if \<not> truthy signature then (True, [])
      else (case validateSignature mac (the signature) body (the secret) (the event) of
              (ok, out) \<Rightarrow>
                (\<not> ok,
                 Call_validateSignature (the signature) body (the secret) (the event) ok
                   # map Console out)))"

text \<open>
  The \<open>for ... of handlers\<close> loop; \<open>i\<close> is the position of the head of the remaining list
  in the registered list.
\<close>

fun for_handlers ::
  "jsstring option \<Rightarrow> 'p \<Rightarrow> ('p, 'w) Handler list \<Rightarrow> nat \<Rightarrow> 'w
     \<Rightarrow> completion \<times> effect list \<times> 'w" where
  "for_handlers event payload [] i w = (Normal, [], w)"
| "for_handlers event payload ((target, handler) # handlers) i w =
     (if Some target = event then
        (case handler payload w of
           (Returns response, w') \<Rightarrow>
             (case response of
                Some r \<Rightarrow> (Return r, [Call_handler i (Returns response)], w')
              | None \<Rightarrow>
                  (case for_handlers event payload handlers (Suc i) w' of
                     (c, t, w'') \<Rightarrow> (c, Call_handler i (Returns response) # t, w'')))
         | (Throws, w') \<Rightarrow> (Throw, [Call_handler i Throws], w')
         | (Hangs, w') \<Rightarrow> (Hang, [Call_handler i Hangs], w'))
      else for_handlers event payload handlers (Suc i) w)"

text \<open>
  The body of the \<open>try\<close>: \<open>JSON.parse\<close> is a parameter \<open>parse\<close>, \<open>None\<close> where it throws.
\<close>

definition try_block ::
  "(jsstring \<Rightarrow> 'p option) \<Rightarrow> jsstring \<Rightarrow> jsstring option \<Rightarrow> ('p, 'w) Handler list \<Rightarrow> 'w
     \<Rightarrow> completion \<times> effect list \<times> 'w" where
  "try_block parse body event handlers w =
     (case parse body of
        None \<Rightarrow> (Throw, [Call_JSON_parse body False], w)
      | Some payload \<Rightarrow>
          (case for_handlers event payload handlers 0 w of
             (c, t, w') \<Rightarrow> (c, Call_JSON_parse body True # t, w')))"

definition handle ::
  "mac_fn \<Rightarrow> (jsstring \<Rightarrow> 'p option) \<Rightarrow> Request \<Rightarrow> ('p, 'w) Handler list \<Rightarrow> jsstring option
     \<Rightarrow> 'w \<Rightarrow> Response option promise \<times> effect list \<times> 'w" where
  "handle mac parse request handlers secret w =
     (case req_text request of
        Rejected \<Rightarrow> (Rejected, [], w)
      | Pending \<Rightarrow> (Pending, [], w)
      | Resolved body \<Rightarrow>
          (case parseHeaders (req_headers request) of
             ((event, signature), warnings) \<Rightarrow>
               (case reject_condition mac event signature body secret of
                  (True, checks) \<Rightarrow>
                    (Resolved (Some (new_Response 403)), map Console warnings @ checks, w)
                | (False, checks) \<Rightarrow>
                    (case try_block parse body event handlers w of
                       (Return response, t, w') \<Rightarrow>
                         (Resolved (Some response), map Console warnings @ checks @ t, w')
                     | (Normal, t, w') \<Rightarrow>
                         (Resolved None, map Console warnings @ checks @ t, w')
                     | (Throw, t, w') \<Rightarrow>
                         (Resolved (Some (new_Response 500)),
                          map Console warnings @ checks @ t, w')
                     | (Hang, t, w') \<Rightarrow>
                         (Pending, map Console warnings @ checks @ t, w')))))"

section \<open>server\<close>

text \<open>
  The request callback given to \<open>serve\<close>. \<open>server\<close> is the one of \<open>mod.ts\<close>;
  \<open>server_rev\<close> is the one of the later revision of the file, which compares
  \<open>url.pathname || '/'\<close> with \<open>pathname || '/'\<close>.
\<close>

definition respond ::
  "Response option promise \<times> effect list \<times> 'w \<Rightarrow> Response promise \<times> effect list \<times> 'w" where
  "respond r =
     (case r of
        (Resolved response, t, w') \<Rightarrow>
          (case response of
             Some r \<Rightarrow> (Resolved r, t, w')
           | None \<Rightarrow> (Resolved (new_Response 200), t, w'))
      | (Rejected, t, w') \<Rightarrow> (Rejected, t, w')
      | (Pending, t, w') \<Rightarrow> (Pending, t, w'))"

definition server ::
  "mac_fn \<Rightarrow> (jsstring \<Rightarrow> 'p option) \<Rightarrow> nat \<Rightarrow> jsstring \<Rightarrow> ('p, 'w) Handler list
     \<Rightarrow> jsstring option \<Rightarrow> Request \<Rightarrow> 'w \<Rightarrow> Response promise \<times> effect list \<times> 'w" where
  "server mac parse port pathname handlers secret request w =
     (if req_method request = js ''POST'' then
        (if req_pathname request = pathname
         then respond (handle mac parse request handlers secret w)
         else (Resolved (new_Response 404), [], w))
      else (Resolved (new_Response 404), [], w))"

definition or_root :: "jsstring \<Rightarrow> jsstring" where
  "or_root p = (if p = [] then js ''/'' else p)"

definition server_rev ::
  "mac_fn \<Rightarrow> (jsstring \<Rightarrow> 'p option) \<Rightarrow> nat \<Rightarrow> jsstring \<Rightarrow> ('p, 'w) Handler list
     \<Rightarrow> jsstring option \<Rightarrow> Request \<Rightarrow> 'w \<Rightarrow> Response promise \<times> effect list \<times> 'w" where
  "server_rev mac parse port pathname handlers secret request w =
     (if req_method request = js ''POST'' then
        (if or_root (req_pathname request) = or_root pathname
         then respond (handle mac parse request handlers secret w)
         else (Resolved (new_Response 404), [], w))
      else (Resolved (new_Response 404), [], w))"

section \<open>webhook and webhookBuilder\<close>

text \<open>
  Handler arrays are objects of the JavaScript heap: the store lists the arrays allocated
  so far, and an array reference is a position in it. A builder is the closure over its
  \<open>handlers\<close> reference and its \<open>secret\<close>. An array literal allocates a new array.
\<close>

type_synonym ('p, 'w) store = "('p, 'w) Handler list list"

record builder =
  b_handlers :: nat
  b_secret :: "jsstring option"

definition alloc :: "'a list \<Rightarrow> 'a \<Rightarrow> nat \<times> 'a list" where
  "alloc store v = (length store, store @ [v])"

definition webhookBuilder :: "nat \<Rightarrow> jsstring option \<Rightarrow> builder" where
  "webhookBuilder handlers secret = \<lparr>b_handlers = handlers, b_secret = secret\<rparr>"

definition webhook :: "jsstring option \<Rightarrow> ('p, 'w) store \<Rightarrow> builder \<times> ('p, 'w) store" where
  "webhook secret store =
     (case alloc store [] of (a, store') \<Rightarrow> (webhookBuilder a secret, store'))"

definition on ::
  "builder \<Rightarrow> jsstring \<Rightarrow> ('p \<Rightarrow> 'w \<Rightarrow> outcome \<times> 'w) \<Rightarrow> ('p, 'w) store
     \<Rightarrow> builder \<times> ('p, 'w) store" where
  "on b event handler store =
     (case alloc store ((store ! b_handlers b) @ [(event, handler)]) of
        (a, store') \<Rightarrow> (webhookBuilder a (b_secret b), store'))"

definition listen ::
  "mac_fn \<Rightarrow> (jsstring \<Rightarrow> 'p option) \<Rightarrow> builder \<Rightarrow> nat \<Rightarrow> jsstring option \<Rightarrow> ('p, 'w) store
     \<Rightarrow> Request \<Rightarrow> 'w \<Rightarrow> Response promise \<times> effect list \<times> 'w" where
  "listen mac parse b port pathname store =
     server mac parse port (case pathname of None \<Rightarrow> [] | Some p \<Rightarrow> p)
       (store ! b_handlers b) (b_secret b)"

definition listen_rev ::
  "mac_fn \<Rightarrow> (jsstring \<Rightarrow> 'p option) \<Rightarrow> builder \<Rightarrow> nat \<Rightarrow> jsstring option \<Rightarrow> ('p, 'w) store
     \<Rightarrow> Request \<Rightarrow> 'w \<Rightarrow> Response promise \<times> effect list \<times> 'w" where
  "listen_rev mac parse b port pathname store =
     server_rev mac parse port (case pathname of None \<Rightarrow> [] | Some p \<Rightarrow> p)
       (store ! b_handlers b) (b_secret b)"

definition builder_handle ::
  "mac_fn \<Rightarrow> (jsstring \<Rightarrow> 'p option) \<Rightarrow> builder \<Rightarrow> ('p, 'w) store \<Rightarrow> Request \<Rightarrow> 'w
     \<Rightarrow> Response option promise \<times> effect list \<times> 'w" where
  "builder_handle mac parse b store request w =
     handle mac parse request (store ! b_handlers b) (b_secret b) w"

section \<open>Reading a trace\<close>

fun calls :: "effect list \<Rightarrow> (nat \<times> outcome) list" where
  "calls [] = []"
| "calls (Call_handler i out # t) = (i, out) # calls t"
| "calls (_ # t) = calls t"

fun is_parse :: "effect \<Rightarrow> bool" where
  "is_parse (Call_JSON_parse _ _) = True"
| "is_parse _ = False"

fun is_call :: "effect \<Rightarrow> bool" where
  "is_call (Call_handler _ _) = True"
| "is_call _ = False"

definition matching :: "jsstring \<Rightarrow> ('p, 'w) Handler list \<Rightarrow> nat list" where
  "matching event handlers = filter (\<lambda>i. fst (handlers ! i) = event) [0..<length handlers]"

text \<open>
  \<open>replay payload handlers ps w\<close> calls the handlers at the positions \<open>ps\<close> one after the
  other, each on the world the one before it has left, and gives the outcomes and the
  last world. It is the yardstick for the order of the calls and for what each call sees.
\<close>

fun replay ::
  "'p \<Rightarrow> ('p, 'w) Handler list \<Rightarrow> nat list \<Rightarrow> 'w \<Rightarrow> (nat \<times> outcome) list \<times> 'w" where
  "replay payload handlers [] w = ([], w)"
| "replay payload handlers (i # ps) w =
     (case snd (handlers ! i) payload w of
        (out, w1) \<Rightarrow>
          (case replay payload handlers ps w1 of
             (cs, w2) \<Rightarrow> ((i, out) # cs, w2)))"

definition ascii :: "jsstring \<Rightarrow> bool" where
  "ascii s = list_all (\<lambda>u. unat u < 0x80) s"

section \<open>Example inputs\<close>

text \<open>
  Concrete inputs on which the theorems below are instantiated. The stand-in MAC
  concatenates key and message; the stand-in parser accepts the text \<open>{}\<close> only; the world
  of the example handlers is the list of the handlers that have run.
\<close>

definition ex_mac :: mac_fn where
  "ex_mac k m = k @ m"

definition ex_parse :: "jsstring \<Rightarrow> jsstring option" where
  "ex_parse b = (if b = js ''{}'' then Some b else None)"

definition ex_headers :: "jsstring option \<Rightarrow> jsstring option \<Rightarrow> Headers" where
  "ex_headers event signature name =
     (if name = js ''x-github-event'' then event
      else if name = js ''x-hub-signature-256'' then signature
      else None)"

definition ex_request :: "jsstring option \<Rightarrow> jsstring option \<Rightarrow> jsstring \<Rightarrow> Request" where
  "ex_request event signature body =
     \<lparr>req_method = js ''POST'', req_pathname = js ''/'',
      req_headers = ex_headers event signature, req_text = Resolved body\<rparr>"

definition ex_handler :: "nat \<Rightarrow> outcome \<Rightarrow> jsstring \<Rightarrow> nat list \<Rightarrow> outcome \<times> nat list" where
  "ex_handler n out payload w = (out, w @ [n])"

definition ex_handlers :: "(jsstring, nat list) Handler list" where
  "ex_handlers =
     [(js ''push'', ex_handler 0 (Returns None)),
      (js ''star'', ex_handler 1 (Returns None)),
      (js ''star'', ex_handler 2 (Returns (Some (new_Response 201)))),
      (js ''star'', ex_handler 3 (Returns None))]"

definition ex_signed :: Request where
  "ex_signed = ex_request (Some (js ''star'')) (Some (js ''sha256=6b7b7d'')) (js ''{}'')"

definition ex_unsigned :: "jsstring \<Rightarrow> Request" where
  "ex_unsigned body = ex_request (Some (js ''star'')) None body"

definition ex_push_only :: "(jsstring, nat list) Handler list" where
  "ex_push_only = [(js ''push'', ex_handler 0 (Returns None))]"

definition ex_throwing :: "(jsstring, nat list) Handler list" where
  "ex_throwing =
     [(js ''star'', ex_handler 0 Throws),
      (js ''star'', ex_handler 1 (Returns None))]"

definition ex_forbidding :: "(jsstring, nat list) Handler list" where
  "ex_forbidding = [(js ''star'', ex_handler 0 (Returns (Some (new_Response 403))))]"

text \<open>
  Two handlers for the same event, the second of which answers only when no handler has
  run before it.
\<close>

definition ex_if_first :: "jsstring \<Rightarrow> nat list \<Rightarrow> outcome \<times> nat list" where
  "ex_if_first payload w =
     (if w = [] then Returns (Some (new_Response 201)) else Returns None, w @ [1])"

definition ex_stateful :: "(jsstring, nat list) Handler list" where
  "ex_stateful =
     [(js ''star'', ex_handler 0 (Returns None)),
      (js ''star'', ex_if_first)]"

definition ex_unreadable :: Request where
  "ex_unreadable =
     \<lparr>req_method = js ''POST'', req_pathname = js ''/'',
      req_headers = ex_headers None None, req_text = Rejected\<rparr>"

definition ex_warn_event :: effect where
  \<open>ex_warn_event = Console (Warn [js ''Header "x-github-event" not found''])\<close>

definition ex_warn_signature :: effect where
  \<open>ex_warn_signature = Console (Warn [js ''Header "x-hub-signature-256" not found''])\<close>

section \<open>Helper lemmas\<close>

subsection \<open>timingSafeEqual decides equality\<close>

lemma unat_ucast_8_32: "unat (ucast (x::8 word) :: 32 word) = unat x"
proof -
  have "unat x < 2 ^ 8" using unsigned_less [of x] by simp
  then have "unat x < 2 ^ 32" by simp
  then show ?thesis by (simp add: unsigned_ucast_eq take_bit_nat_eq_self)
qed

lemma ucast_inj_8_32:
  assumes "(ucast (x::8 word) :: 32 word) = ucast (y::8 word)"
  shows "x = y"
proof -
  from assms have "unat (ucast x :: 32 word) = unat (ucast y :: 32 word)" by simp
  then have "unat x = unat y" by (simp only: unat_ucast_8_32)
  then show ?thesis by (simp add: word_unat_eq_iff)
qed

lemma xor_zero_iff: "((x::32 word) XOR y = 0) = (x = y)"
  by (metis xor.right_neutral xor_self_eq xor.left_commute)

lemma xor_acc_zero:
  "length a = length b \<Longrightarrow> xor_acc out a b = 0 \<longleftrightarrow> out = 0 \<and> a = b"
proof (induction out a b rule: xor_acc.induct)
  case (1 out x xs y ys)
  then show ?case by (auto simp: or_eq_0_iff xor_zero_iff dest: ucast_inj_8_32)
qed auto

lemma timingSafeEqual_iff: "timingSafeEqual a b \<longleftrightarrow> a = b"
  by (auto simp: timingSafeEqual_def xor_acc_zero)

subsection \<open>UTF-8 of ASCII text\<close>

lemma unat_ucast_16_8: "unat (u :: 16 word) < 256 \<Longrightarrow> unat (ucast u :: 8 word) = unat u"
  by (simp add: unsigned_ucast_eq take_bit_nat_eq_self)

lemma ucast_inj_ascii:
  assumes "unat (u :: 16 word) < 0x80" "unat v < 0x80" "(ucast u :: 8 word) = ucast v"
  shows "u = v"
proof -
  from assms(1,2) have "unat (ucast u :: 8 word) = unat u" "unat (ucast v :: 8 word) = unat v"
    by (simp_all add: unat_ucast_16_8)
  with assms(3) have "unat u = unat v" by simp
  then show ?thesis by (simp add: word_unat_eq_iff)
qed

lemma high_byte_not_ascii:
  assumes "128 \<le> n" "n < 256" "unat (u::16 word) < 0x80"
  shows "(of_nat n :: 8 word) \<noteq> ucast u"
proof
  assume h: "(of_nat n :: 8 word) = ucast u"
  have "unat (of_nat n :: 8 word) = n" using assms by (simp add: unat_of_nat)
  moreover have "unat (ucast u :: 8 word) = unat u" using assms by (simp add: unat_ucast_16_8)
  ultimately have "n = unat u" using h by simp
  with assms show False by simp
qed

lemma utf8_cp_ascii: "c < 0x80 \<Longrightarrow> utf8_cp c = [of_nat c]"
  by (simp add: utf8_cp_def)

lemma utf8_cp_high:
  assumes "0x80 \<le> c" "c < 0x110000"
  shows "\<exists>n bs. 128 \<le> n \<and> n < 256 \<and> utf8_cp c = of_nat n # bs"
proof -
  consider "c < 0x800" | "0x800 \<le> c" "c < 0x10000" | "0x10000 \<le> c" by linarith
  then show ?thesis
  proof cases
    case 1
    then have "0xC0 + c div 64 < 256" by simp
    with 1 assms show ?thesis unfolding utf8_cp_def
      by (intro exI [of _ "0xC0 + c div 64"]) simp
  next
    case 2
    then have "0xE0 + c div 4096 < 256" by simp
    with 2 assms show ?thesis unfolding utf8_cp_def
      by (intro exI [of _ "0xE0 + c div 4096"]) simp
  next
    case 3
    with assms have "0xF0 + c div 262144 < 256" by simp
    with 3 assms show ?thesis unfolding utf8_cp_def
      by (intro exI [of _ "0xF0 + c div 262144"]) simp
  qed
qed

lemma encode_Cons:
  "(unat u < 0x80 \<and> encode (u # rest) = ucast u # encode rest) \<or>
   (\<exists>n bs. 128 \<le> n \<and> n < 256 \<and> encode (u # rest) = of_nat n # bs)"
proof (cases "unat u < 0x80")
  case True
  then have "\<not> is_high u" "\<not> is_low u" by (simp_all add: is_high_def is_low_def)
  with True show ?thesis by (cases rest) (simp_all add: utf8_cp_ascii)
next
  case False
  have fffd: "\<exists>n bs. 128 \<le> n \<and> n < 256 \<and> utf8_cp 0xFFFD = of_nat n # bs"
    by (rule utf8_cp_high) simp_all
  have self: "\<exists>n bs. 128 \<le> n \<and> n < 256 \<and> utf8_cp (unat u) = of_nat n # bs"
  proof (rule utf8_cp_high)
    show "0x80 \<le> unat u" using False by simp
    have "unat u < 2 ^ 16" using unsigned_less [of u] by simp
    then show "unat u < 0x110000" by simp
  qed
  have pair: "\<exists>n bs. 128 \<le> n \<and> n < 256 \<and>
      utf8_cp (0x10000 + (unat u - 0xD800) * 0x400 + (unat v - 0xDC00)) = of_nat n # bs"
    if "is_high u" "is_low v" for v
  proof (rule utf8_cp_high)
    show "0x80 \<le> 0x10000 + (unat u - 0xD800) * 0x400 + (unat v - 0xDC00)" by simp
    from that have "unat u - 0xD800 \<le> 1023" "unat v - 0xDC00 \<le> 1023"
      unfolding is_high_def is_low_def by linarith+
    then have "(unat u - 0xD800) * 0x400 \<le> 1023 * 0x400" "unat v - 0xDC00 \<le> 1023"
      by (simp_all only: mult_le_mono1)
    then show "0x10000 + (unat u - 0xD800) * 0x400 + (unat v - 0xDC00) < 0x110000" by linarith
  qed
  show ?thesis
  proof (cases rest)
    case Nil
    with fffd self show ?thesis by auto
  next
    case (Cons v rest')
    with fffd self pair [of v] show ?thesis
      by (cases "is_high u"; cases "is_low v"; cases "is_low u") (auto simp: Cons_eq_append_conv)
  qed
qed

lemma encode_ascii: "ascii t \<Longrightarrow> encode t = map ucast t"
proof (induction t)
  case Nil
  show ?case by simp
next
  case (Cons u t)
  from Cons.prems have u: "unat u < 0x80" and t: "ascii t" by (simp_all add: ascii_def)
  from u have "\<not> is_high u" "\<not> is_low u" by (simp_all add: is_high_def is_low_def)
  with u have "encode (u # t) = ucast u # encode t"
    by (cases t) (simp_all add: utf8_cp_ascii)
  with Cons.IH [OF t] show ?case by simp
qed

lemma encode_eq_ascii:
  "ascii t \<Longrightarrow> encode s = encode t \<Longrightarrow> s = t"
proof (induction t arbitrary: s)
  case Nil
  show ?case
  proof (cases s)
    case (Cons u rest)
    with encode_Cons [of u rest] Nil.prems show ?thesis by auto
  qed simp
next
  case (Cons x t)
  from Cons.prems(1) have x: "unat x < 0x80" and t: "ascii t" by (simp_all add: ascii_def)
  from Cons.prems(1) have et: "encode (x # t) = ucast x # encode t"
    using encode_ascii [of "x # t"] encode_ascii [OF t] by simp
  show ?case
  proof (cases s)
    case Nil
    with Cons.prems(2) et show ?thesis by simp
  next
    case s: (Cons u rest)
    from encode_Cons [of u rest] show ?thesis
    proof
      assume a: "unat u < 0x80 \<and> encode (u # rest) = ucast u # encode rest"
      with Cons.prems(2) et s have "(ucast u :: 8 word) = ucast x" "encode rest = encode t"
        by simp_all
      with a x have "u = x" "rest = t"
        using ucast_inj_ascii [of u x] Cons.IH [OF t, of rest] by simp_all
      with s show ?thesis by simp
    next
      assume "\<exists>n bs. 128 \<le> n \<and> n < 256 \<and> encode (u # rest) = of_nat n # bs"
      then obtain n bs where n: "128 \<le> n" "n < 256" "encode (u # rest) = of_nat n # bs"
        by blast
      with Cons.prems(2) et s have "(of_nat n :: 8 word) = ucast x" by simp
      with high_byte_not_ascii [OF n(1,2) x] show ?thesis by simp
    qed
  qed
qed

lemma ascii_js_hexchars: "ascii hexchars"
  by (simp add: ascii_def hexchars_def js_def)

lemma ascii_hex_byte: "ascii (hex_byte b)"
proof -
  have "unat b < 2 ^ 8" using unsigned_less [of b] by simp
  then have "unat b div 16 < length hexchars" "unat b mod 16 < length hexchars"
    by (simp_all add: hexchars_def js_def)
  then have "hexchars ! (unat b div 16) \<in> set hexchars" "hexchars ! (unat b mod 16) \<in> set hexchars"
    by (simp_all only: nth_mem)
  with ascii_js_hexchars show ?thesis
    by (simp add: ascii_def hex_byte_def list_all_iff)
qed

lemma ascii_append: "ascii (s @ t) \<longleftrightarrow> ascii s \<and> ascii t"
  by (simp add: ascii_def)

lemma ascii_hex: "ascii (hex bs)"
  by (induction bs) (simp_all add: hex_def ascii_append ascii_hex_byte, simp add: ascii_def)

lemma ascii_digest: "ascii (js ''sha256'' @ js ''='' @ hmac mac secret body)"
  by (simp add: ascii_append hmac_def ascii_hex) (simp add: ascii_def js_def)

lemma validateSignature_result:
  "fst (validateSignature mac signature body secret event)
     \<longleftrightarrow> signature = js ''sha256'' @ js ''='' @ hmac mac secret body"
proof -
  let ?expected = "js ''sha256'' @ js ''='' @ hmac mac secret body"
  have "fst (validateSignature mac signature body secret event)
          \<longleftrightarrow> encode signature = encode ?expected"
    by (auto simp: validateSignature_def Let_def timingSafeEqual_iff)
  also have "\<dots> \<longleftrightarrow> signature = ?expected"
    using encode_eq_ascii [OF ascii_digest] by auto
  finally show ?thesis .
qed

subsection \<open>The guard of handle\<close>

lemma parseHeaders_fst:
  "fst (parseHeaders headers) = (headers (js ''x-github-event''), headers (js ''x-hub-signature-256''))"
  by (simp add: parseHeaders_def Let_def)

lemma reject_condition_fst:
  "fst (reject_condition mac event signature body secret) \<longleftrightarrow>
     \<not> truthy event \<or>
     (truthy secret \<and>
        (\<not> truthy signature \<or>
         \<not> fst (validateSignature mac (the signature) body (the secret) (the event))))"
  by (simp add: reject_condition_def split: prod.splits)

lemma reject_condition_True:
  assumes "reject_condition mac event signature body secret = (True, checks)"
  shows "\<forall>x\<in>set checks. \<not> is_parse x \<and> \<not> is_call x \<and>
           (\<forall>sig b s e. x \<noteq> Call_validateSignature sig b s e True)"
  using assms by (auto simp: reject_condition_def split: if_splits prod.splits)

lemma reject_condition_False:
  assumes "reject_condition mac event signature body secret = (False, checks)" "truthy secret"
  shows "\<exists>out. checks = Call_validateSignature (the signature) body (the secret) (the event) True
                     # map Console out \<and>
           truthy event \<and> truthy signature \<and>
           fst (validateSignature mac (the signature) body (the secret) (the event))"
  using assms by (auto simp: reject_condition_def split: if_splits prod.splits)

lemma handle_unreadable:
  "req_text request = Rejected \<Longrightarrow> handle mac parse request handlers secret w = (Rejected, [], w)"
  "req_text request = Pending \<Longrightarrow> handle mac parse request handlers secret w = (Pending, [], w)"
  by (simp_all add: handle_def)

lemma handle_rejected:
  assumes "req_text request = Resolved body"
    and "fst (reject_condition mac (req_headers request (js ''x-github-event''))
             (req_headers request (js ''x-hub-signature-256'')) body secret)"
  shows "handle mac parse request handlers secret w =
           (Resolved (Some (new_Response 403)),
            map Console (snd (parseHeaders (req_headers request))) @
              snd (reject_condition mac (req_headers request (js ''x-github-event''))
                (req_headers request (js ''x-hub-signature-256'')) body secret),
            w)"
  using assms parseHeaders_fst [of "req_headers request"]
  by (auto simp: handle_def Let_def split: prod.splits bool.splits)

lemma handle_authorized:
  assumes "req_text request = Resolved body"
    and "\<not> fst (reject_condition mac (req_headers request (js ''x-github-event''))
             (req_headers request (js ''x-hub-signature-256'')) body secret)"
    and "try_block parse body (req_headers request (js ''x-github-event'')) handlers w
           = (c, t, w')"
  shows "handle mac parse request handlers secret w =
           ((case c of Return response \<Rightarrow> Resolved (Some response) | Normal \<Rightarrow> Resolved None
               | Throw \<Rightarrow> Resolved (Some (new_Response 500)) | Hang \<Rightarrow> Pending),
            map Console (snd (parseHeaders (req_headers request))) @
              snd (reject_condition mac (req_headers request (js ''x-github-event''))
                (req_headers request (js ''x-hub-signature-256'')) body secret) @ t,
            w')"
  using assms parseHeaders_fst [of "req_headers request"]
  by (auto simp: handle_def Let_def split: prod.splits bool.splits completion.splits)

lemma validateSignature_fst_event:
  "fst (validateSignature mac signature body secret e1)
     = fst (validateSignature mac signature body secret e2)"
  by (simp add: validateSignature_def Let_def)

lemma truthy_Some: "truthy v \<Longrightarrow> \<exists>s. v = Some s \<and> s \<noteq> []"
  by (cases v) (simp_all add: truthy_def)

lemma console_no_calls: "\<forall>x\<in>set (map Console out). \<not> is_parse x \<and> \<not> is_call x"
  by (induction out) simp_all

subsection \<open>The handler loop\<close>

lemma matching_Cons:
  "matching e ((target, h) # hs) = (if target = e then [0] else []) @ map Suc (matching e hs)"
proof -
  have "[0..<length ((target, h) # hs)] = 0 # map Suc [0..<length hs]"
    by (simp add: upt_conv_Cons map_Suc_upt del: upt_Suc)
  then show ?thesis
    by (simp add: matching_def filter_map comp_def del: upt_Suc)
qed

lemma for_handlers_Cons_cases:
  assumes "for_handlers (Some e) payload ((target, h) # hs) i w = (c, t, w')"
  obtains (skip) "target \<noteq> e" "for_handlers (Some e) payload hs (Suc i) w = (c, t, w')"
  | (quiet) w1 t1 where "target = e" "h payload w = (Returns None, w1)"
      "for_handlers (Some e) payload hs (Suc i) w1 = (c, t1, w')"
      "t = Call_handler i (Returns None) # t1"
  | (stop) out where "target = e" "h payload w = (out, w')" "out \<noteq> Returns None"
      "t = [Call_handler i out]"
      "c = (case out of Returns (Some r) \<Rightarrow> Return r | Throws \<Rightarrow> Throw | Hangs \<Rightarrow> Hang
              | Returns None \<Rightarrow> Normal)"
  using assms
  by (auto split: if_splits prod.splits outcome.splits option.splits)

lemma for_handlers_order:
  "for_handlers (Some e) payload hs i w = (c, t, w') \<Longrightarrow>
     prefix (map fst (calls t)) (map ((+) i) (matching e hs))"
proof (induction hs arbitrary: i w c t w')
  case Nil
  then show ?case by simp
next
  case (Cons x hs)
  obtain target h where x: "x = (target, h)" by (cases x)
  from Cons.prems [unfolded x] show ?case
  proof (cases rule: for_handlers_Cons_cases)
    case skip
    with Cons.IH [OF skip(2)] show ?thesis by (simp add: x matching_Cons comp_def)
  next
    case (quiet w1 t1)
    with Cons.IH [OF quiet(3)] show ?thesis by (simp add: x matching_Cons comp_def)
  next
    case (stop out)
    then show ?thesis by (simp add: x matching_Cons)
  qed
qed

lemma for_handlers_quiet_before_last:
  "for_handlers (Some e) payload hs i w = (c, t, w') \<Longrightarrow> Suc k < length (calls t) \<Longrightarrow>
     snd (calls t ! k) = Returns None"
proof (induction hs arbitrary: i w c t w' k)
  case Nil
  then show ?case by simp
next
  case (Cons x hs)
  obtain target h where x: "x = (target, h)" by (cases x)
  from Cons.prems(1) [unfolded x] show ?case
  proof (cases rule: for_handlers_Cons_cases)
    case skip
    with Cons.IH [OF skip(2)] Cons.prems(2) show ?thesis by simp
  next
    case (quiet w1 t1)
    with Cons.IH [OF quiet(3)] Cons.prems(2) show ?thesis by (cases k) simp_all
  next
    case (stop out)
    with Cons.prems(2) show ?thesis by simp
  qed
qed

lemma for_handlers_sound:
  "for_handlers (Some e) payload hs i w = (c, t, w') \<Longrightarrow> (j, out) \<in> set (calls t) \<Longrightarrow>
     i \<le> j \<and> j - i < length hs \<and> fst (hs ! (j - i)) = e \<and>
     (\<exists>w0. fst (snd (hs ! (j - i)) payload w0) = out)"
proof (induction hs arbitrary: i w c t w')
  case Nil
  then show ?case by simp
next
  case (Cons x hs)
  obtain target h where x: "x = (target, h)" by (cases x)
  from Cons.prems(1) [unfolded x] show ?case
  proof (cases rule: for_handlers_Cons_cases)
    case skip
    from Cons.IH [OF skip(2) Cons.prems(2)] show ?thesis
      by (auto simp: x Suc_diff_le)
  next
    case (quiet w1 t1)
    show ?thesis
    proof (cases "j = i")
      case True
      with quiet Cons.prems(2) Cons.IH [OF quiet(3), of ] show ?thesis
        by (auto simp: x intro: exI [of _ w])
    next
      case False
      with quiet Cons.prems(2) have "(j, out) \<in> set (calls t1)" by simp
      from Cons.IH [OF quiet(3) this] show ?thesis by (auto simp: x Suc_diff_le)
    qed
  next
    case (stop out')
    with Cons.prems(2) have "j = i" "out = out'" by simp_all
    with stop show ?thesis by (auto simp: x intro: exI [of _ w])
  qed
qed

lemma for_handlers_completion:
  "for_handlers (Some e) payload hs i w = (c, t, w') \<Longrightarrow>
     (case c of
        Normal \<Rightarrow> list_all (\<lambda>x. snd x = Returns None) (calls t) \<and>
                  map fst (calls t) = map ((+) i) (matching e hs)
      | Return r \<Rightarrow> calls t \<noteq> [] \<and> snd (last (calls t)) = Returns (Some r)
      | Throw \<Rightarrow> calls t \<noteq> [] \<and> snd (last (calls t)) = Throws
      | Hang \<Rightarrow> calls t \<noteq> [] \<and> snd (last (calls t)) = Hangs)"
proof (induction hs arbitrary: i w c t w')
  case Nil
  then show ?case by (simp add: matching_def)
next
  case (Cons x hs)
  obtain target h where x: "x = (target, h)" by (cases x)
  from Cons.prems(1) [unfolded x] show ?case
  proof (cases rule: for_handlers_Cons_cases)
    case skip
    with Cons.IH [OF skip(2)] show ?thesis
      by (simp add: x matching_Cons comp_def split: completion.splits)
  next
    case (quiet w1 t1)
    with Cons.IH [OF quiet(3)] show ?thesis
      by (auto simp: x matching_Cons comp_def split: completion.splits)
  next
    case (stop out)
    then show ?thesis by (cases out) (auto simp: x split: option.splits)
  qed
qed

lemma for_handlers_no_match:
  "\<forall>x\<in>set hs. fst x \<noteq> e \<Longrightarrow> for_handlers (Some e) payload hs i w = (Normal, [], w)"
  by (induction hs arbitrary: i) auto

subsection \<open>Traces of handle\<close>

lemma calls_append: "calls (a @ b) = calls a @ calls b"
  by (induction a rule: calls.induct) simp_all

lemma calls_Console: "calls (map Console out) = []"
  by (induction out) simp_all

lemma calls_checks: "calls (snd (reject_condition mac event signature body secret)) = []"
  by (simp add: reject_condition_def calls_Console split: prod.splits)

lemma sorted_matching: "sorted (matching e hs)"
  unfolding matching_def by (rule sorted_wrt_filter) simp

lemma sorted_le_last: "sorted xs \<Longrightarrow> x \<in> set xs \<Longrightarrow> x \<le> (last xs :: nat)"
  by (induction xs) auto

lemma handle_dispatch:
  assumes ev: "req_headers request (js ''x-github-event'') = Some e"
    and rd: "req_text request = Resolved body"
    and auth: "\<not> fst (reject_condition mac (Some e)
                 (req_headers request (js ''x-hub-signature-256'')) body secret)"
    and parse: "parse body = Some payload"
    and loop: "for_handlers (Some e) payload handlers 0 w = (c, t, w1)"
    and run: "handle mac parse request handlers secret w = (res, tr, w')"
  shows "res = (case c of Return response \<Rightarrow> Resolved (Some response) | Normal \<Rightarrow> Resolved None
               | Throw \<Rightarrow> Resolved (Some (new_Response 500)) | Hang \<Rightarrow> Pending)"
    and "calls tr = calls t" and "w' = w1"
proof -
  have tb: "try_block parse body (req_headers request (js ''x-github-event'')) handlers w
              = (c, Call_JSON_parse body True # t, w1)"
    using ev parse loop by (simp add: try_block_def)
  from auth ev have auth': "\<not> fst (reject_condition mac (req_headers request (js ''x-github-event''))
                 (req_headers request (js ''x-hub-signature-256'')) body secret)"
    by simp
  note h = handle_authorized [OF rd auth' tb, unfolded run]
  from h show "res = (case c of Return response \<Rightarrow> Resolved (Some response) | Normal \<Rightarrow> Resolved None
               | Throw \<Rightarrow> Resolved (Some (new_Response 500)) | Hang \<Rightarrow> Pending)"
    by simp
  from h show "w' = w1" by simp
  from h have "tr = map Console (snd (parseHeaders (req_headers request))) @
              snd (reject_condition mac (req_headers request (js ''x-github-event''))
                (req_headers request (js ''x-hub-signature-256'')) body secret) @
              Call_JSON_parse body True # t"
    by simp
  then show "calls tr = calls t"
    by (simp add: calls_append calls_Console calls_checks)
qed

lemma shift_0: "map ((+) (0::nat)) xs = xs"
  by (induction xs) simp_all

lemma try_block_has_parse:
  "try_block parse body event handlers w = (c, t, w') \<Longrightarrow> \<exists>x\<in>set t. is_parse x"
  by (auto simp: try_block_def split: option.splits prod.splits)

subsection \<open>Evaluating the examples\<close>

lemmas ex_defs = ex_mac_def ex_parse_def ex_headers_def ex_request_def ex_handler_def ex_handlers_def

lemmas ex_defs2 = ex_unsigned_def ex_push_only_def ex_throwing_def ex_forbidding_def
  ex_warn_event_def ex_warn_signature_def

lemmas str_defs = js_def hex_def hex_byte_def hexchars_def utf8_cp_def is_high_def is_low_def

lemmas run_defs = handle_def parseHeaders_def reject_condition_def validateSignature_def hmac_def
  timingSafeEqual_def try_block_def truthy_def new_Response_def Let_def

lemma ex_signed_run:
  "handle ex_mac ex_parse ex_signed ex_handlers (Some (js ''k'')) [] =
       (Resolved (Some (new_Response 201)),
        [Call_validateSignature (js ''sha256=6b7b7d'') (js ''{}'') (js ''k'') (js ''star'') True,
         Console (Log [js ''%c[star] crypto: ok'', js ''color: green'']),
         Call_JSON_parse (js ''{}'') True,
         Call_handler 1 (Returns None),
         Call_handler 2 (Returns (Some (new_Response 201)))],
        [1, 2])"
  by (simp add: ex_signed_def ex_defs run_defs str_defs)

lemma ex_signed_event: "req_headers ex_signed (js ''x-github-event'') = Some (js ''star'')"
  by (simp add: ex_signed_def ex_defs js_def)

lemma ex_signed_authorized:
  "\<not> fst (reject_condition ex_mac (Some (js ''star''))
          (req_headers ex_signed (js ''x-hub-signature-256'')) (js ''{}'') (Some (js ''k'')))"
  by (simp add: ex_signed_def ex_defs run_defs str_defs)

lemma ex_signed_text: "req_text ex_signed = Resolved (js ''{}'')"
  by (simp add: ex_signed_def ex_request_def)

lemma ex_parse_ok: "ex_parse (js ''{}'') = Some (js ''{}'')"
  by (simp add: ex_parse_def)

lemma ex_matching: "matching (js ''star'') ex_handlers = [1, 2, 3]"
  by (simp add: matching_def ex_handlers_def js_def)

lemma reject_condition_iff:
  "fst (reject_condition mac event signature body secret) \<longleftrightarrow>
     (event = None \<or> event = Some []) \<or>
     (\<exists>s. secret = Some s \<and> s \<noteq> [] \<and>
        (signature = None \<or> signature = Some [] \<or>
         (\<exists>sig e. signature = Some sig \<and> event = Some e \<and>
            \<not> fst (validateSignature mac sig body s e))))"
  by (cases event; cases signature; cases secret) (auto simp: reject_condition_fst truthy_def)

lemma for_handlers_Throws:
  assumes "for_handlers (Some e) payload hs i w = (c, t, w')" "(j, Throws) \<in> set (calls t)"
  shows "c = Throw"
proof -
  let ?cs = "calls t"
  from assms(2) obtain k where k: "k < length ?cs" "?cs ! k = (j, Throws)"
    by (auto simp: in_set_conv_nth)
  with for_handlers_quiet_before_last [OF assms(1), of k] have "\<not> Suc k < length ?cs" by auto
  with k have kk: "k = length ?cs - 1" by linarith
  from k have "?cs \<noteq> []" by auto
  with k kk have last: "last ?cs = (j, Throws)" by (simp add: last_conv_nth)
  with for_handlers_completion [OF assms(1)] assms(2) show ?thesis
    by (cases c) (auto simp: list_all_iff)
qed

lemma ex_strings:
  "js ''oops'' \<noteq> js ''{}''" "js ''k'' \<noteq> []" "js ''star'' \<noteq> []" "js ''push'' \<noteq> js ''star''"
  by (simp_all add: js_def)

lemma ex_no_match: "matching (js ''star'') ex_push_only = []"
  by (simp add: matching_def ex_push_only_def ex_strings)

lemma ex_malformed_run:
  "handle ex_mac ex_parse (ex_unsigned (js ''oops'')) ex_handlers None [] =
     (Resolved (Some (new_Response 500)),
      [ex_warn_signature,
       Call_JSON_parse (js ''oops'') False],
      [])"
  by (simp add: ex_defs2 ex_defs run_defs str_defs)

lemma ex_throwing_run:
  "handle ex_mac ex_parse (ex_unsigned (js ''{}'')) ex_throwing None [] =
     (Resolved (Some (new_Response 500)),
      [ex_warn_signature,
       Call_JSON_parse (js ''{}'') True,
       Call_handler 0 Throws],
      [0])"
  by (simp add: ex_defs2 ex_defs run_defs str_defs)

lemma ex_unsigned_event: "req_headers (ex_unsigned body) (js ''x-github-event'') = Some (js ''star'')"
  by (simp add: ex_defs2 ex_defs js_def)

lemma ex_unsigned_signature: "req_headers (ex_unsigned body) (js ''x-hub-signature-256'') = None"
  by (simp add: ex_defs2 ex_defs js_def)

lemma ex_unsigned_text: "req_text (ex_unsigned body) = Resolved body"
  by (simp add: ex_defs2 ex_defs)

lemma ex_unsigned_authorized:
  "\<not> fst (reject_condition ex_mac (req_headers (ex_unsigned body) (js ''x-github-event''))
          (req_headers (ex_unsigned body) (js ''x-hub-signature-256'')) body None)"
  by (simp add: ex_unsigned_event reject_condition_def truthy_def ex_strings)

lemma ex_no_match_run:
  "handle ex_mac ex_parse (ex_unsigned (js ''{}'')) ex_push_only None [] =
     (Resolved None,
      [ex_warn_signature,
       Call_JSON_parse (js ''{}'') True],
      [])"
  by (simp add: ex_defs2 ex_defs run_defs str_defs)

lemma ex_unsigned_secret_run:
  "handle ex_mac ex_parse (ex_unsigned (js ''{}'')) ex_push_only (Some (js ''k'')) [] =
     (Resolved (Some (new_Response 403)),
      [ex_warn_signature],
      [])"
  by (simp add: ex_defs2 ex_defs run_defs str_defs)

lemma ex_no_match_malformed_run:
  "handle ex_mac ex_parse (ex_unsigned (js ''oops'')) ex_push_only None [] =
     (Resolved (Some (new_Response 500)),
      [ex_warn_signature,
       Call_JSON_parse (js ''oops'') False],
      [])"
  by (simp add: ex_defs2 ex_defs run_defs str_defs)

lemma ex_empty_event_run:
  "handle ex_mac ex_parse (ex_request (Some []) None (js ''{}'')) ex_handlers None [] =
     (Resolved (Some (new_Response 403)),
      [ex_warn_event,
       ex_warn_signature],
      [])"
  by (simp add: ex_defs2 ex_defs run_defs str_defs)

lemma ex_forbidding_run:
  "handle ex_mac ex_parse (ex_unsigned (js ''{}'')) ex_forbidding None [] =
     (Resolved (Some (new_Response 403)),
      [ex_warn_signature,
       Call_JSON_parse (js ''{}'') True,
       Call_handler 0 (Returns (Some (new_Response 403)))],
      [0])"
  by (simp add: ex_defs2 ex_defs run_defs str_defs)

lemma ex_bogus_run:
  "handle ex_mac ex_parse (ex_request (Some (js ''star'')) (Some (js ''bogus'')) (js ''{}'')) ex_handlers None [] =
     (Resolved (Some (new_Response 201)),
      [Call_JSON_parse (js ''{}'') True,
       Call_handler 1 (Returns None),
       Call_handler 2 (Returns (Some (new_Response 201)))],
      [1, 2])"
  by (simp add: ex_defs2 ex_defs run_defs str_defs)

subsection \<open>The listener\<close>

lemma respond_simps:
  "respond (Resolved (Some r), t, w) = (Resolved r, t, w)"
  "respond (Resolved None, t, w) = (Resolved (new_Response 200), t, w)"
  "respond (Pending, t, w) = (Pending, t, w)"
  "respond (Rejected, t, w) = (Rejected, t, w)"
  by (simp_all add: respond_def)

lemma server_routes:
  "server mac parse port pathname handlers secret request w =
     (if req_method request = js ''POST'' \<and> req_pathname request = pathname
      then (case handle mac parse request handlers secret w of
              (Resolved (Some r), t, w') \<Rightarrow> (Resolved r, t, w')
            | (Resolved None, t, w') \<Rightarrow> (Resolved (new_Response 200), t, w')
            | (Pending, t, w') \<Rightarrow> (Pending, t, w')
            | (Rejected, t, w') \<Rightarrow> (Rejected, t, w'))
      else (Resolved (new_Response 404), [], w))"
  by (simp add: server_def respond_def split: prod.splits promise.splits option.splits)

lemma server_rev_routes:
  "server_rev mac parse port pathname handlers secret request w =
     (if req_method request = js ''POST'' \<and>
         (if req_pathname request = [] then js ''/'' else req_pathname request)
           = (if pathname = [] then js ''/'' else pathname)
      then (case handle mac parse request handlers secret w of
              (Resolved (Some r), t, w') \<Rightarrow> (Resolved r, t, w')
            | (Resolved None, t, w') \<Rightarrow> (Resolved (new_Response 200), t, w')
            | (Pending, t, w') \<Rightarrow> (Pending, t, w')
            | (Rejected, t, w') \<Rightarrow> (Rejected, t, w'))
      else (Resolved (new_Response 404), [], w))"
  by (simp add: server_rev_def or_root_def respond_def split: prod.splits promise.splits option.splits)

lemma ex_signed_fields: "req_method ex_signed = js ''POST''" "req_pathname ex_signed = js ''/''"
  by (simp_all add: ex_signed_def ex_request_def)

lemma ex_root_nonempty: "js ''/'' \<noteq> []"
  by (simp add: js_def)

lemma listen_rev_default_pathname:
  "fst (case webhook (Some (js ''k'')) ([] :: (jsstring, nat list) store) of
      (b0, store0) \<Rightarrow>
        (case on b0 (js ''star'') (ex_handler 1 (Returns None)) store0 of
           (b1, store1) \<Rightarrow> listen_rev ex_mac ex_parse b1 3000 None store1 ex_signed []))
     = Resolved (new_Response 200)"
  by (simp add: webhook_def on_def alloc_def webhookBuilder_def listen_rev_def server_rev_def
        ex_signed_fields ex_root_nonempty or_root_def respond_def)
     (simp add: ex_signed_def ex_defs run_defs str_defs)

subsection \<open>The builder\<close>

lemma webhook_allocated:
  "webhook secret store = (b, store') \<Longrightarrow>
     b_handlers b < length store' \<and> store' ! b_handlers b = [] \<and> b_secret b = secret"
  by (auto simp: webhook_def alloc_def webhookBuilder_def)

subsection \<open>Replaying the handler calls\<close>

lemma drop_ConsD: "drop i hs = x # xs \<Longrightarrow> hs ! i = x \<and> drop (Suc i) hs = xs"
proof -
  assume d: "drop i hs = x # xs"
  then have "hs ! i = x" by (rule nth_via_drop)
  moreover have "drop (Suc i) hs = tl (drop i hs)" by (simp add: drop_Suc tl_drop)
  ultimately show ?thesis using d by simp
qed

lemma for_handlers_replay:
  "drop i hs = xs \<Longrightarrow> for_handlers (Some e) payload xs i w = (c, t, w') \<Longrightarrow>
     replay payload hs (map fst (calls t)) w = (calls t, w')"
proof (induction xs arbitrary: i w c t w')
  case Nil
  then show ?case by simp
next
  case (Cons x xs)
  obtain target h where x: "x = (target, h)" by (cases x)
  from drop_ConsD [OF Cons.prems(1)] x
  have at: "hs ! i = (target, h)" and rest: "drop (Suc i) hs = xs" by simp_all
  from Cons.prems(2) [unfolded x] show ?case
  proof (cases rule: for_handlers_Cons_cases)
    case skip
    from Cons.IH [OF rest skip(2)] show ?thesis .
  next
    case (quiet w1 t1)
    from Cons.IH [OF rest quiet(3)] quiet at show ?thesis by simp
  next
    case (stop out)
    with at show ?thesis by simp
  qed
qed

lemma ex_stateful_run:
  "handle ex_mac ex_parse (ex_unsigned (js ''{}'')) ex_stateful None [] =
     (Resolved None,
      [ex_warn_signature,
       Call_JSON_parse (js ''{}'') True,
       Call_handler 0 (Returns None),
       Call_handler 1 (Returns None)],
      [0, 1])"
  by (simp add: ex_stateful_def ex_if_first_def ex_defs2 ex_defs run_defs str_defs)

lemma ex_unreadable_run:
  "handle ex_mac ex_parse ex_unreadable ex_handlers None [] = (Rejected, [], [])"
  by (simp add: handle_def ex_unreadable_def)

lemma ex_unreadable_event: "req_headers ex_unreadable (js ''x-github-event'') = None"
  by (simp add: ex_unreadable_def ex_headers_def)

section \<open>Claims about validateSignature\<close>

text \<open>
  C1. For every signature string, body, secret and event name, \<open>validateSignature\<close> returns
  true if and only if the signature equals the string \<open>"sha256="\<close> followed by the lowercase
  hex encoding of the MAC of the body under the secret; and it returns false whenever the
  UTF-8 byte length of the signature differs from that of the expected string. The model
  has no throwing branch: the function always returns a boolean. The statement holds for
  every secret, the non-empty ones included.
\<close>

theorem validateSignature_correct:
  "(fst (validateSignature mac sig B S e)
      \<longleftrightarrow> sig = js ''sha256='' @ hex (mac (encode S) (encode B))) \<and>
   (length (encode sig) \<noteq> length (encode (js ''sha256='' @ hex (mac (encode S) (encode B))))
      \<longrightarrow> \<not> fst (validateSignature mac sig B S e))"
proof -
  have eq: "js ''sha256'' @ js ''='' @ hmac mac S B = js ''sha256='' @ hex (mac (encode S) (encode B))"
    by (simp add: js_def hmac_def)
  have "fst (validateSignature mac sig B S e)
          \<longleftrightarrow> sig = js ''sha256='' @ hex (mac (encode S) (encode B))"
    using validateSignature_result [of mac sig B S e] by (simp only: eq)
  then show ?thesis by auto
qed

theorem validateSignature_correct_witness:
  "fst (validateSignature (\<lambda>k m. k @ m) (js ''sha256=6b7b7d'') (js ''{}'') (js ''k'') (js ''push'')) \<and>
   length (encode (js ''sha256='')) \<noteq> length (encode (js ''sha256=6b7b7d'')) \<and>
   \<not> fst (validateSignature (\<lambda>k m. k @ m) (js ''sha256='') (js ''{}'') (js ''k'') (js ''push''))"
  using validateSignature_correct [of "\<lambda>k m. k @ m" "js ''sha256=6b7b7d''" "js ''{}''" "js ''k''" "js ''push''"]
    validateSignature_correct [of "\<lambda>k m. k @ m" "js ''sha256=''" "js ''{}''" "js ''k''" "js ''push''"]
  by (simp add: js_def hex_def hex_byte_def hexchars_def utf8_cp_def is_high_def is_low_def)

text \<open>
  C10. For every signature, body and secret, and any two event names, the boolean result
  of \<open>validateSignature\<close> is the same: the event name reaches the console output only.
\<close>

theorem validateSignature_event_independent:
  "fst (validateSignature mac signature body secret e1)
     = fst (validateSignature mac signature body secret e2)"
  by (simp add: validateSignature_def Let_def)

theorem validateSignature_event_independent_witness:
  "fst (validateSignature (\<lambda>k m. k @ m) (js ''sha256=6b7b7d'') (js ''{}'') (js ''k'') (js ''push''))
     = fst (validateSignature (\<lambda>k m. k @ m) (js ''sha256=6b7b7d'') (js ''{}'') (js ''k'') (js ''star''))"
  using validateSignature_event_independent
    [of "\<lambda>k m. k @ m" "js ''sha256=6b7b7d''" "js ''{}''" "js ''k''" "js ''push''" "js ''star''"]
  by simp

section \<open>Claims about handle\<close>

text \<open>
  C2. When a secret is configured (a non-empty string: the guard tests \<open>secret\<close> for
  truthiness), \<open>handle\<close> parses the body and invokes handlers only after
  \<open>validateSignature\<close> has run on this request's signature and body and returned true:
  whenever the trace holds a \<open>JSON.parse\<close> or a handler call, the body text has been read
  and a successful verification of the request's signature header and that text precedes
  the call, and nothing before that verification is a parse or a handler call. A request
  whose signature or event header is missing, whose body cannot be read, or whose
  verification returns false, reaches neither \<open>JSON.parse\<close> nor any handler: the trace holds
  no such call and the world the handlers act on is unchanged; when its body has been read,
  the result is the 403 response.
\<close>

theorem handle_verifies_first:
  assumes "secret = Some s" "s \<noteq> []"
    and "handle mac parse request handlers secret w = (res, tr, w')"
  shows "((\<exists>x\<in>set tr. is_parse x \<or> is_call x) \<longrightarrow>
            (\<exists>pre post sig e body.
               req_text request = Resolved body \<and>
               tr = pre @ Call_validateSignature sig body s e True # post \<and>
               req_headers request (js ''x-hub-signature-256'') = Some sig \<and>
               req_headers request (js ''x-github-event'') = Some e \<and>
               fst (validateSignature mac sig body s e) \<and>
               (\<forall>x\<in>set pre. \<not> is_parse x \<and> \<not> is_call x))) \<and>
         ((req_headers request (js ''x-hub-signature-256'') = None \<or>
           req_headers request (js ''x-github-event'') = None \<or>
           (\<forall>body. req_text request \<noteq> Resolved body) \<or>
           (\<exists>sig e body. req_headers request (js ''x-hub-signature-256'') = Some sig \<and>
                    req_headers request (js ''x-github-event'') = Some e \<and>
                    req_text request = Resolved body \<and>
                    \<not> fst (validateSignature mac sig body s e))) \<longrightarrow>
            (\<forall>x\<in>set tr. \<not> is_parse x \<and> \<not> is_call x) \<and> w' = w \<and>
            (\<forall>body. req_text request = Resolved body \<longrightarrow>
               res = Resolved (Some (new_Response 403))))"
proof (cases "req_text request")
  case Rejected
  from handle_unreadable(1) [OF Rejected, of mac parse handlers secret w] assms(3)
  have "tr = []" "w' = w" by simp_all
  with Rejected show ?thesis by simp
next
  case Pending
  from handle_unreadable(2) [OF Pending, of mac parse handlers secret w] assms(3)
  have "tr = []" "w' = w" by simp_all
  with Pending show ?thesis by simp
next
  case (Resolved body)
  let ?event = "req_headers request (js ''x-github-event'')"
  let ?signature = "req_headers request (js ''x-hub-signature-256'')"
  let ?warn = "map Console (snd (parseHeaders (req_headers request)))"
  let ?rc = "reject_condition mac ?event ?signature body secret"
  have secret: "truthy secret" "the secret = s" using assms(1,2) by (simp_all add: truthy_def)
  show ?thesis
  proof (cases "fst ?rc")
    case True
    then have rc: "?rc = (True, snd ?rc)" by (simp add: prod_eq_iff)
    from handle_rejected [OF Resolved True, of parse handlers w] assms(3)
    have res: "res = Resolved (Some (new_Response 403))" and tr: "tr = ?warn @ snd ?rc" and w: "w' = w"
      by simp_all
    from reject_condition_True [OF rc] console_no_calls [of "snd (parseHeaders (req_headers request))"] tr
    have "\<forall>x\<in>set tr. \<not> is_parse x \<and> \<not> is_call x" by auto
    with res w show ?thesis by blast
  next
    case False
    then have rc: "?rc = (False, snd ?rc)" by (simp add: prod_eq_iff)
    from reject_condition_False [OF rc secret(1)] secret(2)
    obtain out where checks: "snd ?rc = Call_validateSignature (the ?signature) body s (the ?event) True
                                # map Console out"
      and ev: "truthy ?event" and sg: "truthy ?signature"
      and ok: "fst (validateSignature mac (the ?signature) body s (the ?event))"
      by auto
    from truthy_Some [OF sg] obtain sig where sig: "?signature = Some sig" by blast
    from truthy_Some [OF ev] obtain e where e: "?event = Some e" by blast
    obtain c t w1 where tb: "try_block parse body ?event handlers w = (c, t, w1)"
      by (cases "try_block parse body ?event handlers w") auto
    from handle_authorized [OF Resolved False tb] assms(3) checks sig e
    have tr: "tr = ?warn @ Call_validateSignature sig body s e True # (map Console out @ t)"
      by simp
    have first: "\<exists>pre post sig e body.
               req_text request = Resolved body \<and>
               tr = pre @ Call_validateSignature sig body s e True # post \<and>
               ?signature = Some sig \<and> ?event = Some e \<and>
               fst (validateSignature mac sig body s e) \<and>
               (\<forall>x\<in>set pre. \<not> is_parse x \<and> \<not> is_call x)"
      using tr sig e ok Resolved console_no_calls [of "snd (parseHeaders (req_headers request))"]
      by (intro exI [of _ ?warn] exI [of _ "map Console out @ t"] exI [of _ sig]
               exI [of _ e] exI [of _ body]) simp
    from ok sig e have "fst (validateSignature mac sig body s e)" by simp
    with sig e Resolved first show ?thesis by simp
  qed
qed

theorem handle_verifies_first_witness:
  "(\<exists>x\<in>set (fst (snd (handle ex_mac ex_parse ex_signed ex_handlers (Some (js ''k'')) []))).
       is_parse x \<or> is_call x) \<and>
   (\<exists>pre post sig e body.
       req_text ex_signed = Resolved body \<and>
       fst (snd (handle ex_mac ex_parse ex_signed ex_handlers (Some (js ''k'')) []))
         = pre @ Call_validateSignature sig body (js ''k'') e True # post \<and>
       req_headers ex_signed (js ''x-hub-signature-256'') = Some sig \<and>
       req_headers ex_signed (js ''x-github-event'') = Some e \<and>
       fst (validateSignature ex_mac sig body (js ''k'') e) \<and>
       (\<forall>x\<in>set pre. \<not> is_parse x \<and> \<not> is_call x))"
proof -
  have s: "js ''k'' \<noteq> []" by (simp add: js_def)
  have p: "\<exists>x\<in>set (fst (snd (handle ex_mac ex_parse ex_signed ex_handlers (Some (js ''k'')) []))).
       is_parse x \<or> is_call x"
    by (simp add: ex_signed_run)
  from handle_verifies_first [OF refl s ex_signed_run] p show ?thesis
    by (simp only: ex_signed_run fst_conv snd_conv)
qed

text \<open>
  C4. For an authorized request (its body text is read and the guard of \<open>handle\<close> is
  false) whose body parses, the handler calls are, in order, an initial segment of the
  registered positions whose declared event equals the inbound event name: registration
  order, and no handler declared for another event is called. Every call but the last has
  completed yielding nothing before the next begins, and each call is made on the world
  the call before it has left: replaying the called positions one after the other from the
  initial world gives exactly the recorded outcomes and the world \<open>handle\<close> ends in. A call
  that yields a response is the last call, its response is the result of \<open>handle\<close>, and no
  handler at a later position is called. When every call yields nothing, all matching
  handlers are called and the result is absent.
\<close>

theorem handle_dispatch_order:
  assumes "req_headers request (js ''x-github-event'') = Some e"
    and "req_text request = Resolved body"
    and "\<not> fst (reject_condition mac (Some e)
             (req_headers request (js ''x-hub-signature-256'')) body secret)"
    and "parse body = Some payload"
    and "handle mac parse request handlers secret w = (res, tr, w')"
  shows "prefix (map fst (calls tr)) (matching e handlers) \<and>
         (\<forall>k. Suc k < length (calls tr) \<longrightarrow> snd (calls tr ! k) = Returns None) \<and>
         (\<forall>(i, out)\<in>set (calls tr).
             i < length handlers \<and> fst (handlers ! i) = e \<and>
             (\<exists>w0. fst (snd (handlers ! i) payload w0) = out)) \<and>
         replay payload handlers (map fst (calls tr)) w = (calls tr, w') \<and>
         (\<forall>i r. (i, Returns (Some r)) \<in> set (calls tr) \<longrightarrow>
             res = Resolved (Some r) \<and> last (calls tr) = (i, Returns (Some r)) \<and>
             (\<forall>j\<in>set (map fst (calls tr)). j \<le> i)) \<and>
         (list_all (\<lambda>x. snd x = Returns None) (calls tr) \<longrightarrow>
             res = Resolved None \<and> map fst (calls tr) = matching e handlers)"
proof -
  obtain c t w1 where loop: "for_handlers (Some e) payload handlers 0 w = (c, t, w1)"
    by (cases "for_handlers (Some e) payload handlers 0 w") auto
  note hd = handle_dispatch [OF assms(1,2,3,4) loop assms(5)]
  let ?cs = "calls tr"
  have cs: "?cs = calls t" by (rule hd(2))
  have order: "prefix (map fst ?cs) (matching e handlers)"
    using for_handlers_order [OF loop] by (simp add: cs shift_0)
  have quiet: "\<forall>k. Suc k < length ?cs \<longrightarrow> snd (?cs ! k) = Returns None"
    using for_handlers_quiet_before_last [OF loop] by (simp add: cs)
  have sound: "\<forall>(i, out)\<in>set ?cs.
             i < length handlers \<and> fst (handlers ! i) = e \<and>
             (\<exists>w0. fst (snd (handlers ! i) payload w0) = out)"
    using for_handlers_sound [OF loop] by (auto simp: cs)
  have threaded: "replay payload handlers (map fst ?cs) w = (?cs, w')"
    using for_handlers_replay [OF _ loop, of handlers] hd(3) by (simp add: cs)
  note compl = for_handlers_completion [OF loop, folded cs, unfolded shift_0]
  have stop: "res = Resolved (Some r) \<and> last ?cs = (i, Returns (Some r)) \<and>
                (\<forall>j\<in>set (map fst ?cs). j \<le> i)"
    if mem: "(i, Returns (Some r)) \<in> set ?cs" for i r
  proof -
    from mem obtain k where k: "k < length ?cs" "?cs ! k = (i, Returns (Some r))"
      by (auto simp: in_set_conv_nth)
    with quiet have "\<not> Suc k < length ?cs" by auto
    with k have kk: "k = length ?cs - 1" by linarith
    from k have ne: "?cs \<noteq> []" by auto
    with k kk have last: "last ?cs = (i, Returns (Some r))"
      by (simp add: last_conv_nth)
    from compl last mem have "c = Return r"
      by (cases c) (auto simp: list_all_iff)
    with hd(1) have res: "res = Resolved (Some r)" by simp
    from order sorted_matching [of e handlers] have "sorted (map fst ?cs)"
      by (auto simp: prefix_def sorted_append)
    moreover from ne last have "last (map fst ?cs) = i" by (simp add: last_map)
    ultimately have "\<forall>j\<in>set (map fst ?cs). j \<le> i"
      using sorted_le_last [of "map fst ?cs"] by blast
    with res last show ?thesis by blast
  qed
  have all_quiet: "res = Resolved None \<and> map fst ?cs = matching e handlers"
    if "list_all (\<lambda>x. snd x = Returns None) ?cs"
  proof -
    from that compl have "c = Normal"
      by (cases c) (auto simp: list_all_iff dest: last_in_set)
    with compl hd(1) show ?thesis by simp
  qed
  from order quiet sound threaded stop all_quiet show ?thesis by blast
qed

theorem handle_dispatch_order_witness:
  "prefix (map fst (calls (fst (snd (handle ex_mac ex_parse ex_signed ex_handlers (Some (js ''k'')) [])))))
     (matching (js ''star'') ex_handlers) \<and>
   matching (js ''star'') ex_handlers = [1, 2, 3] \<and>
   calls (fst (snd (handle ex_mac ex_parse ex_signed ex_handlers (Some (js ''k'')) [])))
     = [(1, Returns None), (2, Returns (Some (new_Response 201)))] \<and>
   replay (js ''{}'') ex_handlers [1, 2] []
     = ([(1, Returns None), (2, Returns (Some (new_Response 201)))], [1, 2]) \<and>
   fst (handle ex_mac ex_parse ex_signed ex_handlers (Some (js ''k'')) [])
     = Resolved (Some (new_Response 201)) \<and>
   snd (snd (handle ex_mac ex_parse ex_signed ex_handlers (Some (js ''k'')) [])) = [1, 2] \<and>
   calls (fst (snd (handle ex_mac ex_parse (ex_unsigned (js ''{}'')) ex_stateful None [])))
     = [(0, Returns None), (1, Returns None)] \<and>
   replay (js ''{}'') ex_stateful [0, 1] [] = ([(0, Returns None), (1, Returns None)], [0, 1]) \<and>
   fst (handle ex_mac ex_parse (ex_unsigned (js ''{}'')) ex_stateful None []) = Resolved None \<and>
   snd (snd (handle ex_mac ex_parse (ex_unsigned (js ''{}'')) ex_stateful None [])) = [0, 1]"
proof -
  note a = handle_dispatch_order [OF ex_signed_event ex_signed_text ex_signed_authorized ex_parse_ok
      ex_signed_run]
  note b = handle_dispatch_order [OF ex_unsigned_event ex_unsigned_text
      ex_unsigned_authorized [unfolded ex_unsigned_event] ex_parse_ok ex_stateful_run]
  have p: "prefix (map fst (calls (fst (snd (handle ex_mac ex_parse ex_signed ex_handlers
              (Some (js ''k'')) []))))) (matching (js ''star'') ex_handlers)"
    using a [THEN conjunct1] by (simp only: ex_signed_run fst_conv snd_conv)
  have r1: "replay (js ''{}'') ex_handlers [1, 2] []
              = ([(1, Returns None), (2, Returns (Some (new_Response 201)))], [1, 2])"
    using a [THEN conjunct2, THEN conjunct2, THEN conjunct2, THEN conjunct1] by simp
  have r2: "replay (js ''{}'') ex_stateful [0, 1] []
              = ([(0, Returns None), (1, Returns None)], [0, 1])"
    using b [THEN conjunct2, THEN conjunct2, THEN conjunct2, THEN conjunct1]
    by (simp add: ex_warn_signature_def)
  have rest: "matching (js ''star'') ex_handlers = [1, 2, 3]"
    "calls (fst (snd (handle ex_mac ex_parse ex_signed ex_handlers (Some (js ''k'')) [])))
       = [(1, Returns None), (2, Returns (Some (new_Response 201)))]"
    "fst (handle ex_mac ex_parse ex_signed ex_handlers (Some (js ''k'')) [])
       = Resolved (Some (new_Response 201))"
    "snd (snd (handle ex_mac ex_parse ex_signed ex_handlers (Some (js ''k'')) [])) = [1, 2]"
    "calls (fst (snd (handle ex_mac ex_parse (ex_unsigned (js ''{}'')) ex_stateful None [])))
       = [(0, Returns None), (1, Returns None)]"
    "fst (handle ex_mac ex_parse (ex_unsigned (js ''{}'')) ex_stateful None []) = Resolved None"
    "snd (snd (handle ex_mac ex_parse (ex_unsigned (js ''{}'')) ex_stateful None [])) = [0, 1]"
    by (simp_all add: ex_signed_run ex_matching ex_stateful_run ex_warn_signature_def)
  from p r1 r2 rest show ?thesis by (intro conjI)
qed

text \<open>
  C3 (as amended). For every request whose body text is read, \<open>handle\<close> rejects it, that
  is, returns the response with status 403 and no body without parsing the body or calling
  any handler, exactly when the event header is absent or empty, or the secret is a
  non-empty string and the signature header is absent or empty, or the secret is a
  non-empty string and \<open>validateSignature\<close> returns false on the request's signature and
  body. In particular a non-empty secret with a missing \<open>x-hub-signature-256\<close> header yields
  403, whatever the event header and the body text. What \<open>handle\<close> does when the body
  cannot be read is left out of this statement.
\<close>

theorem handle_rejects_iff:
  assumes run: "handle mac parse request handlers secret w = (res, tr, w')"
    and rd: "req_text request = Resolved body"
    and ev: "event = req_headers request (js ''x-github-event'')"
    and sg: "signature = req_headers request (js ''x-hub-signature-256'')"
  shows "((res = Resolved (Some (new_Response 403)) \<and> (\<forall>x\<in>set tr. \<not> is_parse x \<and> \<not> is_call x))
           \<longleftrightarrow>
          ((event = None \<or> event = Some []) \<or>
           (\<exists>s. secret = Some s \<and> s \<noteq> [] \<and>
              (signature = None \<or> signature = Some [] \<or>
               (\<exists>sig e. signature = Some sig \<and> event = Some e \<and>
                  \<not> fst (validateSignature mac sig body s e)))))) \<and>
         ((\<exists>s. secret = Some s \<and> s \<noteq> []) \<and> signature = None \<longrightarrow>
            res = Resolved (Some (new_Response 403)))"
proof -
  let ?rc = "reject_condition mac event signature body secret"
  let ?warn = "map Console (snd (parseHeaders (req_headers request)))"
  have main: "(res = Resolved (Some (new_Response 403)) \<and> (\<forall>x\<in>set tr. \<not> is_parse x \<and> \<not> is_call x))
                \<longleftrightarrow> fst ?rc"
  proof (cases "fst ?rc")
    case True
    then have rc: "?rc = (True, snd ?rc)" by (simp add: prod_eq_iff)
    from handle_rejected [OF rd True [unfolded ev sg], of parse handlers w] run
    have res: "res = Resolved (Some (new_Response 403))" and tr: "tr = ?warn @ snd ?rc"
      by (simp_all add: ev sg)
    from reject_condition_True [OF rc] console_no_calls [of "snd (parseHeaders (req_headers request))"] tr
    have "\<forall>x\<in>set tr. \<not> is_parse x \<and> \<not> is_call x" by auto
    with res True show ?thesis by simp
  next
    case False
    obtain c t w1 where tb: "try_block parse body
        (req_headers request (js ''x-github-event'')) handlers w = (c, t, w1)"
      by (cases "try_block parse body
        (req_headers request (js ''x-github-event'')) handlers w") auto
    from handle_authorized [OF rd False [unfolded ev sg] tb, unfolded run]
    have "set t \<subseteq> set tr" by auto
    with try_block_has_parse [OF tb] have "\<exists>x\<in>set tr. is_parse x" by blast
    with False show ?thesis by blast
  qed
  have "fst ?rc" if "\<exists>s. secret = Some s \<and> s \<noteq> []" "signature = None"
    using that by (auto simp: reject_condition_iff)
  with main show ?thesis by (auto simp: reject_condition_iff)
qed

theorem handle_rejects_iff_witness:
  "req_text (ex_unsigned (js ''{}'')) = Resolved (js ''{}'') \<and>
   req_headers (ex_unsigned (js ''{}'')) (js ''x-github-event'') = Some (js ''star'') \<and>
   req_headers (ex_unsigned (js ''{}'')) (js ''x-hub-signature-256'') = None \<and>
   fst (handle ex_mac ex_parse (ex_unsigned (js ''{}'')) ex_push_only (Some (js ''k'')) [])
     = Resolved (Some (new_Response 403)) \<and>
   list_all (\<lambda>x. \<not> is_parse x \<and> \<not> is_call x)
     (fst (snd (handle ex_mac ex_parse (ex_unsigned (js ''{}'')) ex_push_only (Some (js ''k'')) [])))"
  using handle_rejects_iff [OF ex_unsigned_secret_run ex_unsigned_text refl refl]
  by (simp add: ex_unsigned_secret_run ex_unsigned_event ex_unsigned_signature ex_unsigned_text
        ex_warn_signature_def)

text \<open>
  C3 as first stated ("403 and no body exactly when the event header is absent, or
  a secret is configured and the signature header is absent or verification returns
  false") fails on three inputs without any secret. With the event header present: an
  event header whose value is the empty string is rejected with 403, and a matching
  handler that itself returns a 403 response makes that the result of \<open>handle\<close>. With the
  event header absent: when the body cannot be read, \<open>await request.text()\<close> rejects before
  the headers are looked at, and the promise of \<open>handle\<close> rejects instead of resolving with
  the 403 response.
\<close>

theorem handle_rejects_counterexample:
  "req_headers (ex_request (Some []) None (js ''{}'')) (js ''x-github-event'') = Some [] \<and>
   fst (handle ex_mac ex_parse (ex_request (Some []) None (js ''{}'')) ex_handlers None [])
     = Resolved (Some (new_Response 403)) \<and>
   req_headers (ex_unsigned (js ''{}'')) (js ''x-github-event'') = Some (js ''star'') \<and>
   fst (handle ex_mac ex_parse (ex_unsigned (js ''{}'')) ex_forbidding None [])
     = Resolved (Some (new_Response 403)) \<and>
   req_headers ex_unreadable (js ''x-github-event'') = None \<and>
   fst (handle ex_mac ex_parse ex_unreadable ex_handlers None []) = Rejected"
proof -
  have "req_headers (ex_request (Some []) None (js ''{}'')) (js ''x-github-event'') = Some []"
    by (simp add: ex_request_def ex_headers_def)
  then show ?thesis
    by (simp add: ex_empty_event_run ex_forbidding_run ex_unsigned_event ex_unreadable_run
          ex_unreadable_event)
qed

text \<open>
  C5. For every authorized request (its body text is read and the guard of \<open>handle\<close> is
  false): when parsing the body fails, \<open>handle\<close> resolves with the response of status 500
  and no body, and no handler has been called; when a called handler throws, \<open>handle\<close>
  resolves with the same response; and in no case does the promise returned by \<open>handle\<close>
  reject.
\<close>

theorem handle_faults_give_500:
  assumes rd: "req_text request = Resolved body"
    and auth: "\<not> fst (reject_condition mac (req_headers request (js ''x-github-event''))
                   (req_headers request (js ''x-hub-signature-256'')) body secret)"
    and run: "handle mac parse request handlers secret w = (res, tr, w')"
  shows "(parse body = None \<longrightarrow>
            res = Resolved (Some (new_Response 500)) \<and> calls tr = []) \<and>
         ((\<exists>i. (i, Throws) \<in> set (calls tr)) \<longrightarrow> res = Resolved (Some (new_Response 500))) \<and>
         res \<noteq> Rejected"
proof (cases "parse body")
  case None
  let ?event = "req_headers request (js ''x-github-event'')"
  have tb: "try_block parse body ?event handlers w
              = (Throw, [Call_JSON_parse body False], w)"
    using None by (simp add: try_block_def)
  from handle_authorized [OF rd auth tb, unfolded run]
  have "res = Resolved (Some (new_Response 500))" "calls tr = []"
    by (simp_all add: calls_append calls_Console calls_checks)
  then show ?thesis by simp
next
  case (Some payload)
  from auth have "truthy (req_headers request (js ''x-github-event''))"
    by (simp add: reject_condition_fst)
  from truthy_Some [OF this] obtain e where e: "req_headers request (js ''x-github-event'') = Some e"
    by blast
  obtain c t w1 where loop: "for_handlers (Some e) payload handlers 0 w = (c, t, w1)"
    by (cases "for_handlers (Some e) payload handlers 0 w") auto
  note hd = handle_dispatch [OF e rd auth [unfolded e] Some loop run]
  have "res = Resolved (Some (new_Response 500))" if "(i, Throws) \<in> set (calls tr)" for i
    using for_handlers_Throws [OF loop, of i] that hd(1,2) by simp
  moreover have "res \<noteq> Rejected" using hd(1) by (cases c) simp_all
  ultimately show ?thesis using Some by auto
qed

theorem handle_faults_give_500_witness:
  "ex_parse (js ''oops'') = None \<and>
   fst (handle ex_mac ex_parse (ex_unsigned (js ''oops'')) ex_handlers None [])
     = Resolved (Some (new_Response 500)) \<and>
   (0, Throws) \<in> set (calls (fst (snd (handle ex_mac ex_parse (ex_unsigned (js ''{}'')) ex_throwing None [])))) \<and>
   fst (handle ex_mac ex_parse (ex_unsigned (js ''{}'')) ex_throwing None [])
     = Resolved (Some (new_Response 500))"
  using handle_faults_give_500 [OF ex_unsigned_text ex_unsigned_authorized ex_malformed_run]
    handle_faults_give_500 [OF ex_unsigned_text ex_unsigned_authorized ex_throwing_run]
  by (simp add: ex_malformed_run ex_throwing_run ex_parse_def ex_strings
        ex_warn_signature_def)

text \<open>
  C7 (as amended). For every authorized request whose body parses and whose event name
  equals no registered handler's declared event, \<open>handle\<close> resolves with an absent result:
  no handler is called and the world is unchanged.
\<close>

theorem handle_no_match_absent:
  assumes "req_headers request (js ''x-github-event'') = Some e"
    and "req_text request = Resolved body"
    and "\<not> fst (reject_condition mac (Some e)
             (req_headers request (js ''x-hub-signature-256'')) body secret)"
    and "parse body = Some payload"
    and "\<forall>x\<in>set handlers. fst x \<noteq> e"
    and "handle mac parse request handlers secret w = (res, tr, w')"
  shows "res = Resolved None \<and> calls tr = [] \<and> w' = w"
  using handle_dispatch [OF assms(1,2,3,4) for_handlers_no_match [OF assms(5)] assms(6)]
  by simp

theorem handle_no_match_absent_witness:
  "matching (js ''star'') ex_push_only = [] \<and>
   handle ex_mac ex_parse (ex_unsigned (js ''{}'')) ex_push_only None []
     = (Resolved None,
        [ex_warn_signature,
         Call_JSON_parse (js ''{}'') True],
        [])"
proof -
  have nm: "\<forall>x\<in>set ex_push_only. fst x \<noteq> js ''star''"
    by (simp add: ex_push_only_def ex_strings)
  from handle_no_match_absent [OF ex_unsigned_event ex_unsigned_text
      ex_unsigned_authorized [unfolded ex_unsigned_event] ex_parse_ok nm ex_no_match_run]
  show ?thesis by (simp add: ex_no_match_run ex_no_match)
qed

text \<open>
  C7 as first stated ("regardless of authorization outcome") fails: with no
  matching handler registered, a request that lacks the signature a non-empty secret
  requires gets the 403 response, and an authorized request whose body does not parse gets
  the 500 response.
\<close>

theorem handle_no_match_counterexample:
  "matching (js ''star'') ex_push_only = [] \<and>
   fst (handle ex_mac ex_parse (ex_unsigned (js ''{}'')) ex_push_only (Some (js ''k'')) [])
     = Resolved (Some (new_Response 403)) \<and>
   fst (handle ex_mac ex_parse (ex_unsigned (js ''oops'')) ex_push_only None [])
     = Resolved (Some (new_Response 500))"
  by (simp add: ex_unsigned_secret_run ex_no_match_malformed_run ex_no_match)

text \<open>
  C9. For every request and handler list, \<open>handle\<close> with the empty string as secret
  returns what \<open>handle\<close> with no secret returns, trace and world included: verification is
  skipped and the content of the signature header is ignored.
\<close>

theorem handle_empty_secret:
  "handle mac parse request handlers (Some []) w = handle mac parse request handlers None w"
  by (simp add: handle_def reject_condition_def truthy_def Let_def split: prod.splits promise.splits)

theorem handle_empty_secret_witness:
  "handle ex_mac ex_parse (ex_request (Some (js ''star'')) (Some (js ''bogus'')) (js ''{}'')) ex_handlers (Some []) []
     = handle ex_mac ex_parse (ex_request (Some (js ''star'')) (Some (js ''bogus'')) (js ''{}'')) ex_handlers None [] \<and>
   fst (handle ex_mac ex_parse (ex_request (Some (js ''star'')) (Some (js ''bogus'')) (js ''{}'')) ex_handlers (Some []) [])
     = Resolved (Some (new_Response 201))"
  using handle_empty_secret [of ex_mac ex_parse
      "ex_request (Some (js ''star'')) (Some (js ''bogus'')) (js ''{}'')" ex_handlers "[]"]
  by (simp add: ex_bogus_run)

section \<open>Claims about the listener and the builder\<close>

text \<open>
  C6. The listener is to forward a POST whose URL pathname equals the configured path
  token, an empty or absent token counting as the root \<open>/\<close>, and to answer 404 to
  everything else. The callback of \<open>mod.ts\<close> compares \<open>url.pathname\<close> with the token as
  given: built as in the README, \<open>webhook(secret).on('star', h).listen(3000)\<close>, the token is
  the default \<open>''\<close>, and a POST to the root path \<open>/\<close> with a valid signature is answered
  with 404 without reaching \<open>handle\<close> (empty trace, world unchanged). The later revision
  of the callback, \<open>server_rev\<close>, forwards the same request (\<open>listen_rev_default_pathname\<close>)
  and routes as the claim says (\<open>server_rev_routes\<close>).
\<close>

theorem listen_default_pathname_404:
  "(case webhook (Some (js ''k'')) ([] :: (jsstring, nat list) store) of
      (b0, store0) \<Rightarrow>
        (case on b0 (js ''star'') (ex_handler 1 (Returns None)) store0 of
           (b1, store1) \<Rightarrow> listen ex_mac ex_parse b1 3000 None store1 ex_signed []))
     = (Resolved (new_Response 404), [], [])"
  by (simp add: webhook_def on_def alloc_def webhookBuilder_def listen_def server_def
        ex_signed_fields ex_root_nonempty)

text \<open>
  C8. For every builder \<open>b\<close> whose handler array is allocated, \<open>b.on(event, handler)\<close>
  returns a builder over a newly allocated array holding \<open>b\<close>'s sequence with the new entry
  appended at the end, under the same secret. Every array allocated before the call is
  unchanged, \<open>b\<close>'s included, so \<open>b.handle\<close> behaves after the call exactly as before. A
  second \<open>on\<close> on the same \<open>b\<close> yields a builder over \<open>b\<close>'s sequence with the second entry
  appended, and leaves the first branch and \<open>b\<close> as they were: branches from a shared
  prefix dispatch independently.
\<close>

theorem on_appends_and_preserves:
  assumes "b_handlers b < length store"
    and "on b event handler store = (b', store')"
  shows "store' ! b_handlers b' = store ! b_handlers b @ [(event, handler)] \<and>
         b_secret b' = b_secret b \<and>
         length store \<le> b_handlers b' \<and> b_handlers b' < length store' \<and>
         (\<forall>a<length store. store' ! a = store ! a) \<and>
         builder_handle mac parse b store' = builder_handle mac parse b store \<and>
         (\<forall>event2 handler2 b2 store2.
             on b event2 handler2 store' = (b2, store2) \<longrightarrow>
               store2 ! b_handlers b2 = store ! b_handlers b @ [(event2, handler2)] \<and>
               store2 ! b_handlers b' = store ! b_handlers b @ [(event, handler)] \<and>
               builder_handle mac parse b' store2 = builder_handle mac parse b' store' \<and>
               builder_handle mac parse b store2 = builder_handle mac parse b store)"
  using assms
  by (auto simp: on_def alloc_def webhookBuilder_def builder_handle_def nth_append fun_eq_iff)

theorem on_appends_and_preserves_witness:
  "on (webhookBuilder 0 None) (js ''star'') (ex_handler 1 (Returns None)) [ex_push_only]
     = (webhookBuilder 1 None,
        [ex_push_only, ex_push_only @ [(js ''star'', ex_handler 1 (Returns None))]]) \<and>
   builder_handle ex_mac ex_parse (webhookBuilder 0 None)
       [ex_push_only, ex_push_only @ [(js ''star'', ex_handler 1 (Returns None))]]
     = builder_handle ex_mac ex_parse (webhookBuilder 0 None) [ex_push_only] \<and>
   fst (on (webhookBuilder 0 None) (js ''push'') (ex_handler 2 Throws)
         [ex_push_only, ex_push_only @ [(js ''star'', ex_handler 1 (Returns None))]])
     = webhookBuilder 2 None"
proof -
  have lt: "b_handlers (webhookBuilder 0 None) < length [ex_push_only]"
    by (simp add: webhookBuilder_def)
  have run: "on (webhookBuilder 0 None) (js ''star'') (ex_handler 1 (Returns None)) [ex_push_only]
     = (webhookBuilder 1 None,
        [ex_push_only, ex_push_only @ [(js ''star'', ex_handler 1 (Returns None))]])"
    by (simp add: on_def alloc_def webhookBuilder_def)
  from on_appends_and_preserves [OF lt run, of ex_mac ex_parse] run show ?thesis
    by (simp add: on_def alloc_def webhookBuilder_def)
qed

end
